theory Spec2Isabelle
  imports Main "HOL-Library.Char_ord" "HOL-Library.List_Lexorder"
begin

section \<open>Strings\<close>

text \<open>
  A JavaScript string is modelled as a \<^typ>\<open>string\<close>: the list of the bytes of its
  UTF-8 encoding. File contents are byte lists of the same type, so that reading or
  writing a file as \<^verbatim>\<open>'utf8'\<close> does not change the list. The order \<open><\<close> on
  strings is the lexicographic order of the byte values; on ASCII strings it is the order
  of JavaScript's \<^verbatim>\<open><\<close>.
\<close>

type_synonym bytes = string

text \<open>\<^verbatim>\<open>s.startsWith(p)\<close> and \<^verbatim>\<open>s.endsWith(p)\<close>.\<close>

definition startsWith :: "string \<Rightarrow> string \<Rightarrow> bool" where
  "startsWith s p = (take (length p) s = p)"

definition endsWith :: "string \<Rightarrow> string \<Rightarrow> bool" where
  "endsWith s p = (length p \<le> length s \<and> drop (length s - length p) s = p)"

text \<open>
  \<^verbatim>\<open>s.replace(pat, rep)\<close> with a string pattern: only the first occurrence of
  \<open>pat\<close> is replaced (\<open>rep\<close> has no \<^verbatim>\<open>$\<close> pattern in this program: it is
  always the empty string).
\<close>

fun replace :: "string \<Rightarrow> string \<Rightarrow> string \<Rightarrow> string" where
  "replace [] pat rep = (if pat = [] then rep else [])"
| "replace (c # cs) pat rep =
     (if startsWith (c # cs) pat then rep @ drop (length pat) (c # cs)
      else c # replace cs pat rep)"

text \<open>\<^verbatim>\<open>s.split(sep)\<close> for a separator of one character.\<close>

fun split :: "string \<Rightarrow> char \<Rightarrow> string list" where
  "split [] sep = [] # []"
| "split (c # cs) sep =
     (if c = sep then [] # split cs sep
      else (case split cs sep of [] \<Rightarrow> [c] # [] | p # ps \<Rightarrow> (c # p) # ps))"

text \<open>
  \<^verbatim>\<open>String(n)\<close> for an integral number, and \<^verbatim>\<open>s.padStart(n, fill)\<close>.
\<close>

definition digit_char :: "nat \<Rightarrow> char" where
  "digit_char n = char_of (48 + n)"

fun digits :: "nat \<Rightarrow> string" where
  "digits n = (if n < 10 then [digit_char n] else digits (n div 10) @ [digit_char (n mod 10)])"

declare digits.simps [simp del]

definition String :: "int \<Rightarrow> string" where
  "String n = (if n < 0 then CHR ''-'' # digits (nat (- n)) else digits (nat n))"

definition padStart :: "string \<Rightarrow> nat \<Rightarrow> string \<Rightarrow> string" where
  "padStart s n fill =
     take (n - length s) (concat (replicate (n - length s) fill)) @ s"

text \<open>
  \<^verbatim>\<open>s.toLowerCase()\<close>: the ASCII letters are mapped to lower case. Bytes above 127
  are left alone (JavaScript also lowers the letters outside ASCII).
\<close>

definition lower_char :: "char \<Rightarrow> char" where
  "lower_char c =
     (if CHR ''A'' \<le> c \<and> c \<le> CHR ''Z'' then char_of (of_char c + (32::nat)) else c)"

definition toLowerCase :: "string \<Rightarrow> string" where
  "toLowerCase s = map lower_char s"

text \<open>
  \<^verbatim>\<open>s.trim()\<close> removes white space and line terminators from both ends. The list
  holds the UTF-8 encodings of the code points of ECMAScript's WhiteSpace and
  LineTerminator productions: TAB, LF, VT, FF, CR, SP, U+00A0, U+1680, U+2000 to U+200A,
  U+2028, U+2029, U+202F, U+205F, U+3000 and U+FEFF.
\<close>

definition white_space :: "string list" where
  "white_space =
     [ [CHR 0x09], [CHR 0x0A], [CHR 0x0B], [CHR 0x0C],
      [CHR 0x0D], [CHR 0x20],
      [CHR 0xC2, CHR 0xA0],
      [CHR 0xE1, CHR 0x9A, CHR 0x80],
      [CHR 0xE2, CHR 0x80, CHR 0x80],
      [CHR 0xE2, CHR 0x80, CHR 0x81],
      [CHR 0xE2, CHR 0x80, CHR 0x82],
      [CHR 0xE2, CHR 0x80, CHR 0x83],
      [CHR 0xE2, CHR 0x80, CHR 0x84],
      [CHR 0xE2, CHR 0x80, CHR 0x85],
      [CHR 0xE2, CHR 0x80, CHR 0x86],
      [CHR 0xE2, CHR 0x80, CHR 0x87],
      [CHR 0xE2, CHR 0x80, CHR 0x88],
      [CHR 0xE2, CHR 0x80, CHR 0x89],
      [CHR 0xE2, CHR 0x80, CHR 0x8A],
      [CHR 0xE2, CHR 0x80, CHR 0xA8],
      [CHR 0xE2, CHR 0x80, CHR 0xA9],
      [CHR 0xE2, CHR 0x80, CHR 0xAF],
      [CHR 0xE2, CHR 0x81, CHR 0x9F],
      [CHR 0xE3, CHR 0x80, CHR 0x80],
      [CHR 0xEF, CHR 0xBB, CHR 0xBF]]"

fun strip_left :: "nat \<Rightarrow> string list \<Rightarrow> string \<Rightarrow> string" where
  "strip_left 0 ws s = s"
| "strip_left (Suc k) ws s =
     (case find (\<lambda>w. w \<noteq> [] \<and> startsWith s w) ws of
        None \<Rightarrow> s
      | Some w \<Rightarrow> strip_left k ws (drop (length w) s))"

definition trimStart :: "string \<Rightarrow> string" where
  "trimStart s = strip_left (length s) white_space s"

definition trimEnd :: "string \<Rightarrow> string" where
  "trimEnd s = rev (strip_left (length s) (map rev white_space) (rev s))"

definition trim :: "string \<Rightarrow> string" where
  "trim s = trimEnd (trimStart s)"


section \<open>The clock: Date of the runtime\<close>

text \<open>
  \<^verbatim>\<open>new Date()\<close> reads the clock. A date is its time value, the milliseconds since the
  epoch in UTC, together with the offset of the local time zone from UTC that is in effect
  at that instant, in seconds (positive east of Greenwich; the offsets of the time zone
  database are whole seconds). The offset is part of the instant because it changes:
  when daylight saving time ends, the local clock is set back by an hour.
\<close>

record date =
  getTime :: int
  offsetSeconds :: int

text \<open>
  The getters of \<^verbatim>\<open>Date\<close> read the fields of the local time, as ECMAScript defines
  them (ECMA-262, Time Values and Time Range): \<open>LocalTime\<close>, \<open>Day\<close>, \<open>DaysInYear\<close>,
  \<open>DayFromYear\<close>, \<open>YearFromTime\<close> (the largest year that starts at or before the
  time), \<open>InLeapYear\<close>, \<open>DayWithinYear\<close>, \<open>MonthFromTime\<close>, \<open>DateFromTime\<close>,
  \<open>HourFromTime\<close>, \<open>MinFromTime\<close> and \<open>SecFromTime\<close>. On integers \<open>div\<close> rounds
  down and \<open>mod\<close> has the sign of the divisor, as the floor and the modulo of the
  standard do.
\<close>

definition LocalTime :: "date \<Rightarrow> int" where
  "LocalTime d = getTime d + 1000 * offsetSeconds d"

definition Day :: "int \<Rightarrow> int" where
  "Day t = t div 86400000"

definition DaysInYear :: "int \<Rightarrow> int" where
  "DaysInYear y =
     (if y mod 4 \<noteq> 0 then 365 else if y mod 100 \<noteq> 0 then 366
      else if y mod 400 \<noteq> 0 then 365 else 366)"

definition DayFromYear :: "int \<Rightarrow> int" where
  "DayFromYear y =
     365 * (y - 1970) + (y - 1969) div 4 - (y - 1901) div 100 + (y - 1601) div 400"

text \<open>
  A year has 365 or 366 days, and \<open>DayFromYear\<close> grows by the days of the year: the
  search for the year, which walks up from a year that starts at or before the day,
  terminates.
\<close>

lemma div_succ:
  assumes "0 < (b::int)"
  shows "(x + 1) div b = x div b + (if (x + 1) mod b = 0 then 1 else 0)"
proof -
  define q r where "q = x div b" and "r = x mod b"
  have x: "x = b * q + r" and r: "0 \<le> r" "r < b"
    using assms by (simp_all add: q_def r_def)
  show ?thesis
  proof (cases "r + 1 = b")
    case True
    then have e: "x + 1 = b * (q + 1) + 0" by (simp add: x algebra_simps)
    have "(x + 1) div b = q + 1" using assms by (intro int_div_pos_eq [OF e]) simp_all
    moreover have "(x + 1) mod b = 0" using assms by (intro int_mod_pos_eq [OF e]) simp_all
    ultimately show ?thesis by (simp add: q_def)
  next
    case False
    then have r1: "r + 1 < b" using r by simp
    have e: "x + 1 = b * q + (r + 1)" by (simp add: x)
    have "(x + 1) div b = q" using r r1 by (intro int_div_pos_eq [OF e]) simp_all
    moreover have "(x + 1) mod b = r + 1" using r r1 by (intro int_mod_pos_eq [OF e]) simp_all
    ultimately show ?thesis using r by (simp add: q_def)
  qed
qed

lemma mod_400_100: "(y::int) mod 400 = 0 \<Longrightarrow> y mod 100 = 0"
  using mod_mod_cancel [of 100 400 y] by simp

lemma mod_100_4: "(y::int) mod 100 = 0 \<Longrightarrow> y mod 4 = 0"
  using mod_mod_cancel [of 4 100 y] by simp

lemma DayFromYear_step: "DayFromYear (y + 1) = DayFromYear y + DaysInYear y"
proof -
  have m: "(y - 1968) mod 4 = y mod 4" "(y - 1900) mod 100 = y mod 100"
    "(y - 1600) mod 400 = y mod 400"
    using mod_mult_self2 [of y 4 "- 492"] mod_mult_self2 [of y 100 "- 19"]
      mod_mult_self2 [of y 400 "- 4"] by simp_all
  have a: "(y - 1968) div 4 = (y - 1969) div 4 + (if y mod 4 = 0 then 1 else 0)"
    using div_succ [of 4 "y - 1969"] by (simp add: m)
  have b: "(y - 1900) div 100 = (y - 1901) div 100 + (if y mod 100 = 0 then 1 else 0)"
    using div_succ [of 100 "y - 1901"] by (simp add: m)
  have c: "(y - 1600) div 400 = (y - 1601) div 400 + (if y mod 400 = 0 then 1 else 0)"
    using div_succ [of 400 "y - 1601"] by (simp add: m)
  show ?thesis
    using mod_400_100 [of y] mod_100_4 [of y]
    by (auto simp add: DayFromYear_def DaysInYear_def a b c)
qed

lemma DaysInYear_bounds: "365 \<le> DaysInYear y" "DaysInYear y \<le> 366"
  by (simp_all add: DaysInYear_def)

function year_search :: "int \<Rightarrow> int \<Rightarrow> int" where
  "year_search y day = (if DayFromYear (y + 1) \<le> day then year_search (y + 1) day else y)"
  by pat_completeness auto
termination
proof (relation "measure (\<lambda>(y, day). nat (day + 1 - DayFromYear (y + 1)))")
  show "wf (measure (\<lambda>(y, day). nat (day + 1 - DayFromYear (y + 1))))" by simp
next
  fix y day :: int
  assume "DayFromYear (y + 1) \<le> day"
  then show "((y + 1, day), (y, day)) \<in> measure (\<lambda>(y, day). nat (day + 1 - DayFromYear (y + 1)))"
    using DayFromYear_step [of "y + 1"] DaysInYear_bounds [of "y + 1"] by simp
qed

declare year_search.simps [simp del]

text \<open>
  The search starts at a year that does not start after the day: a year has at most 366
  and at least 365 days.
\<close>

definition YearFromDay :: "int \<Rightarrow> int" where
  "YearFromDay day = year_search (1970 + (if 0 \<le> day then day div 366 else day div 365)) day"

definition YearFromTime :: "int \<Rightarrow> int" where
  "YearFromTime t = YearFromDay (Day t)"

definition InLeapYear :: "int \<Rightarrow> int" where
  "InLeapYear t = (if DaysInYear (YearFromTime t) = 366 then 1 else 0)"

definition DayWithinYear :: "int \<Rightarrow> int" where
  "DayWithinYear t = Day t - DayFromYear (YearFromTime t)"

text \<open>
  The tables of \<open>MonthFromTime\<close> and \<open>DateFromTime\<close>, for the day within the year
  \<open>d\<close> and the leap year flag \<open>l\<close>.
\<close>

definition month_of :: "int \<Rightarrow> int \<Rightarrow> int" where
  "month_of d l =
     (if d < 31 then 0 else if d < 59 + l then 1 else if d < 90 + l then 2
      else if d < 120 + l then 3 else if d < 151 + l then 4 else if d < 181 + l then 5
      else if d < 212 + l then 6 else if d < 243 + l then 7 else if d < 273 + l then 8
      else if d < 304 + l then 9 else if d < 334 + l then 10 else 11)"

definition date_of :: "int \<Rightarrow> int \<Rightarrow> int" where
  "date_of d l =
     (let m = month_of d l in
      if m = 0 then d + 1 else if m = 1 then d - 30 else if m = 2 then d - 58 - l
      else if m = 3 then d - 89 - l else if m = 4 then d - 119 - l
      else if m = 5 then d - 150 - l else if m = 6 then d - 180 - l
      else if m = 7 then d - 211 - l else if m = 8 then d - 242 - l
      else if m = 9 then d - 272 - l else if m = 10 then d - 303 - l else d - 333 - l)"

definition MonthFromTime :: "int \<Rightarrow> int" where
  "MonthFromTime t = month_of (DayWithinYear t) (InLeapYear t)"

definition DateFromTime :: "int \<Rightarrow> int" where
  "DateFromTime t = date_of (DayWithinYear t) (InLeapYear t)"

definition HourFromTime :: "int \<Rightarrow> int" where
  "HourFromTime t = (t div 3600000) mod 24"

definition MinFromTime :: "int \<Rightarrow> int" where
  "MinFromTime t = (t div 60000) mod 60"

definition SecFromTime :: "int \<Rightarrow> int" where
  "SecFromTime t = (t div 1000) mod 60"

definition getFullYear :: "date \<Rightarrow> int" where
  "getFullYear d = YearFromTime (LocalTime d)"

definition getMonth :: "date \<Rightarrow> int" where
  "getMonth d = MonthFromTime (LocalTime d)"

definition getDate :: "date \<Rightarrow> int" where
  "getDate d = DateFromTime (LocalTime d)"

definition getHours :: "date \<Rightarrow> int" where
  "getHours d = HourFromTime (LocalTime d)"

definition getMinutes :: "date \<Rightarrow> int" where
  "getMinutes d = MinFromTime (LocalTime d)"

definition getSeconds :: "date \<Rightarrow> int" where
  "getSeconds d = SecFromTime (LocalTime d)"

section \<open>Timestamp codec (web-server: timestampName)\<close>

definition pad :: "int \<Rightarrow> string" where
  "pad n = padStart (String n) 2 ''0''"

definition timestampName :: "date \<Rightarrow> string" where
  "timestampName d =
     String (getFullYear d) @ ''-'' @ pad (getMonth d + 1) @ ''-'' @ pad (getDate d) @ ''-'' @
     pad (getHours d) @ ''-'' @ pad (getMinutes d) @ ''-'' @ pad (getSeconds d)"


section \<open>Node library: path and the base64 codec of Buffer\<close>

text \<open>
  \<^verbatim>\<open>path.basename(p, suffix)\<close> and \<^verbatim>\<open>path.extname(p)\<close> of POSIX Node, for a path
  that does not end in a slash (the program calls them on a name that ends in
  \<^verbatim>\<open>.txt\<close> and on directory entries). The last segment of the path loses the suffix
  unless it is the suffix itself; the extension starts at the last dot of the last
  segment, and is empty when there is no dot, when that dot is the first character, and
  for the segment \<^verbatim>\<open>..\<close>.
\<close>

definition last_segment :: "string \<Rightarrow> string" where
  "last_segment p = rev (takeWhile (\<lambda>c. c \<noteq> CHR ''/'') (rev p))"

definition basename :: "string \<Rightarrow> string \<Rightarrow> string" where
  "basename p suffix =
     (let seg = last_segment p in
      if suffix \<noteq> [] \<and> p = suffix then []
      else if suffix \<noteq> [] \<and> endsWith seg suffix \<and> seg \<noteq> suffix
        then take (length seg - length suffix) seg
      else seg)"

definition extname :: "string \<Rightarrow> string" where
  "extname p =
     (let seg = last_segment p;
          ext = rev (takeWhile (\<lambda>c. c \<noteq> CHR ''.'') (rev seg))
      in if CHR ''.'' \<notin> set seg then []
         else if length seg = Suc (length ext) then []
         else if seg = ''..'' then []
         else CHR ''.'' # ext)"

text \<open>
  \<^verbatim>\<open>buf.toString('base64')\<close>: RFC 4648 with padding. A byte is read as a number
  with \<^const>\<open>of_char\<close>.
\<close>

definition b64_alphabet :: string where
  "b64_alphabet = ''ABCDEFGHIJKLMNOPQRSTUVWXYZabcdefghijklmnopqrstuvwxyz0123456789+/''"

definition b64_char :: "nat \<Rightarrow> char" where
  "b64_char n = b64_alphabet ! n"

fun b64encode :: "bytes \<Rightarrow> string" where
  "b64encode [] = []"
| "b64encode [a] =
     [b64_char (of_char a div 4), b64_char (of_char a mod 4 * 16), CHR ''='', CHR ''='']"
| "b64encode [a, b] =
     [b64_char (of_char a div 4), b64_char (of_char a mod 4 * 16 + of_char b div 16),
      b64_char (of_char b mod 16 * 4), CHR ''='']"
| "b64encode (a # b # c # rest) =
     [b64_char (of_char a div 4), b64_char (of_char a mod 4 * 16 + of_char b div 16),
      b64_char (of_char b mod 16 * 4 + of_char c div 64), b64_char (of_char c mod 64)]
     @ b64encode rest"

text \<open>
  \<^verbatim>\<open>Buffer.from(s, 'base64')\<close>: the decoder is lenient. It reads the characters of
  the standard and of the URL-safe alphabet, skips every other character and stops at the
  first \<^verbatim>\<open>=\<close>. Four sextets give three bytes; a last group of two or three sextets
  gives one or two bytes, and a single left-over sextet gives none.
\<close>

fun index_of :: "'a \<Rightarrow> 'a list \<Rightarrow> nat option" where
  "index_of x [] = None"
| "index_of x (y # ys) = (if x = y then Some 0 else map_option Suc (index_of x ys))"

definition unbase64 :: "char \<Rightarrow> nat option" where
  "unbase64 c =
     (if c = CHR ''-'' then Some 62 else if c = CHR ''_'' then Some 63
      else index_of c b64_alphabet)"

fun b64_sextets :: "string \<Rightarrow> nat list" where
  "b64_sextets [] = []"
| "b64_sextets (c # cs) =
     (case unbase64 c of
        Some v \<Rightarrow> v # b64_sextets cs
      | None \<Rightarrow> if c = CHR ''='' then [] else b64_sextets cs)"

fun b64_bytes :: "nat list \<Rightarrow> bytes" where
  "b64_bytes (a # b # c # d # rest) =
     [char_of (a * 4 + b div 16), char_of (b mod 16 * 16 + c div 4), char_of (c mod 4 * 64 + d)]
     @ b64_bytes rest"
| "b64_bytes [a, b, c] = [char_of (a * 4 + b div 16), char_of (b mod 16 * 16 + c div 4)]"
| "b64_bytes [a, b] = [char_of (a * 4 + b div 16)]"
| "b64_bytes [a] = []"
| "b64_bytes [] = []"

definition b64decode :: "string \<Rightarrow> bytes" where
  "b64decode s = b64_bytes (b64_sextets s)"

section \<open>The artifact store: two directories of the file system\<close>

text \<open>
  The web server writes to \<^verbatim>\<open>./transcripts\<close> and \<^verbatim>\<open>./images\<close>, and the MCP
  server reads the same two directories. A directory is absent or holds its entries in
  the order in which \<^verbatim>\<open>readdir\<close> reports them. An entry is a file with its bytes, or
  an entry that cannot be read (a subdirectory, a file without read permission), with the
  error its read fails with. The faults of the file system are part of its state: whether
  listing or creating a directory fails, whether writing a name fails, and the position
  that \<^verbatim>\<open>readdir\<close> gives to a name created next.
\<close>

datatype category = Transcripts | Images

datatype errno = ENOENT | ENOTDIR | EACCES | EISDIR | EMFILE | EIO | ENOSPC | EROFS

datatype js_error =
    Error (message: string)
  | TypeError (message: string)
  | SyntaxError (message: string)
  | SystemError (code: errno) (message: string)

datatype entry = File bytes | Unreadable js_error

record fs =
  dirs :: "category \<Rightarrow> (string \<times> entry) list option"
  readdir_fault :: "category \<Rightarrow> js_error option"
  mkdir_fault :: "category \<Rightarrow> js_error option"
  write_fault :: "category \<Rightarrow> string \<Rightarrow> js_error option"
  slot :: "category \<Rightarrow> string \<Rightarrow> nat"

definition enoent :: js_error where
  "enoent = SystemError ENOENT ''ENOENT: no such file or directory''"

definition readdir :: "fs \<Rightarrow> category \<Rightarrow> js_error + string list" where
  "readdir s d =
     (case readdir_fault s d of
        Some e \<Rightarrow> Inl e
      | None \<Rightarrow> (case dirs s d of None \<Rightarrow> Inl enoent | Some es \<Rightarrow> Inr (map fst es)))"

definition readFile :: "fs \<Rightarrow> category \<Rightarrow> string \<Rightarrow> js_error + bytes" where
  "readFile s d name =
     (case dirs s d of
        None \<Rightarrow> Inl enoent
      | Some es \<Rightarrow>
          (case map_of es name of
             None \<Rightarrow> Inl enoent
           | Some (File b) \<Rightarrow> Inr b
           | Some (Unreadable e) \<Rightarrow> Inl e))"

text \<open>\<^verbatim>\<open>mkdir(dir, { recursive: true })\<close>: an existing directory is left as it is.\<close>

definition mkdir :: "fs \<Rightarrow> category \<Rightarrow> js_error + fs" where
  "mkdir s d =
     (case mkdir_fault s d of
        Some e \<Rightarrow> Inl e
      | None \<Rightarrow>
          (case dirs s d of
             None \<Rightarrow> Inr (s\<lparr>dirs := (dirs s)(d := Some [])\<rparr>)
           | Some es \<Rightarrow> Inr s))"

text \<open>
  \<^verbatim>\<open>writeFile\<close> replaces the bytes of an existing name where it stands, and gives a
  new name the position \<open>slot\<close> of the listing.
\<close>

fun put :: "nat \<Rightarrow> string \<Rightarrow> bytes \<Rightarrow> (string \<times> entry) list \<Rightarrow> (string \<times> entry) list" where
  "put k name b es =
     (if name \<in> fst ` set es
      then map (\<lambda>(n, e). if n = name then (n, File b) else (n, e)) es
      else take k es @ (name, File b) # drop k es)"

definition writeFile :: "fs \<Rightarrow> category \<Rightarrow> string \<Rightarrow> bytes \<Rightarrow> js_error + fs" where
  "writeFile s d name b =
     (case write_fault s d name of
        Some e \<Rightarrow> Inl e
      | None \<Rightarrow>
          (case dirs s d of
             None \<Rightarrow> Inl enoent
           | Some es \<Rightarrow> Inr (s\<lparr>dirs := (dirs s)(d := Some (put (slot s d name) name b es))\<rparr>)))"

section \<open>MCP server (mcp-server/index.js)\<close>

text \<open>
  The functions of the MCP server only read the store. Each returns, next to its result,
  the accesses to the store it made, in order. The log files are written elsewhere and
  never read by the program: logging is left out.
\<close>

datatype access = Readdir category | ReadFile category string

record text_file =
  filename :: string
  content :: string

text \<open>
  \<^verbatim>\<open>Promise.all\<close>: the list of the results, or a rejection when one of the promises
  rejects (the caller below only logs the error).
\<close>

fun promise_all :: "(js_error + 'a) list \<Rightarrow> js_error + 'a list" where
  "promise_all [] = Inr []"
| "promise_all (Inl e # rs) = Inl e"
| "promise_all (Inr x # rs) = (case promise_all rs of Inl e \<Rightarrow> Inl e | Inr xs \<Rightarrow> Inr (x # xs))"

text \<open>
  The comparator of the sort is \<^verbatim>\<open>localeCompare\<close> on the names without
  \<^verbatim>\<open>.txt\<close>. The collation of the runtime is not part of the program: it is the
  parameter \<open>collate\<close>, whose result is negative, zero or positive.
  \<^verbatim>\<open>Array.prototype.sort\<close> is stable: the model inserts each name, from the last to
  the first, before the first name that it does not sort after.
\<close>

fun insert_by :: "('a \<Rightarrow> 'a \<Rightarrow> int) \<Rightarrow> 'a \<Rightarrow> 'a list \<Rightarrow> 'a list" where
  "insert_by cmp x [] = [x]"
| "insert_by cmp x (y # ys) = (if cmp x y \<le> 0 then x # y # ys else y # insert_by cmp x ys)"

definition sort_by :: "('a \<Rightarrow> 'a \<Rightarrow> int) \<Rightarrow> 'a list \<Rightarrow> 'a list" where
  "sort_by cmp xs = foldr (insert_by cmp) xs []"

definition sortTextFiles :: "(string \<Rightarrow> string \<Rightarrow> int) \<Rightarrow> string list \<Rightarrow> string list" where
  "sortTextFiles collate textFiles =
     sort_by (\<lambda>a b. collate (replace a ''.txt'' []) (replace b ''.txt'' [])) textFiles"

definition readTextFilesFromDir ::
    "(string \<Rightarrow> string \<Rightarrow> int) \<Rightarrow> fs \<Rightarrow> category \<Rightarrow> text_file list \<times> access list" where
  "readTextFilesFromDir collate s dir =
     (case readdir s dir of
        Inl err \<Rightarrow> ([], [Readdir dir])
      | Inr files \<Rightarrow>
          (let textFiles =
                 sortTextFiles collate (filter (\<lambda>file. endsWith file ''.txt'') files);
               fileContents =
                 promise_all
                   (map (\<lambda>name.
                           case readFile s dir name of
                             Inl err \<Rightarrow> Inl err
                           | Inr txt \<Rightarrow> Inr \<lparr>filename = name, content = txt\<rparr>)
                      textFiles)
           in (case fileContents of Inl err \<Rightarrow> [] | Inr fileContents \<Rightarrow> fileContents,
               Readdir dir # map (ReadFile dir) textFiles)))"

record image =
  filepath :: string
  base64 :: string
  mediaType :: string

definition mediaType_of :: "string \<Rightarrow> string" where
  "mediaType_of ext =
     (if ext = ''jpg'' \<or> ext = ''jpeg'' then ''image/jpeg''
      else if ext = ''png'' then ''image/png''
      else ''image/'' @ ext)"

definition getCorrespondingImage :: "fs \<Rightarrow> string \<Rightarrow> image option \<times> access list" where
  "getCorrespondingImage s textFilename =
     (let baseName = basename textFilename ''.txt'' in
      case readdir s Images of
        Inl err \<Rightarrow> (None, [Readdir Images])
      | Inr files \<Rightarrow>
          (case find (\<lambda>file. startsWith file baseName \<and> \<not> endsWith file ''.txt'') files of
             None \<Rightarrow> (None, [Readdir Images])
           | Some imageFile \<Rightarrow>
               if imageFile = [] then (None, [Readdir Images])
               else
                 (case readFile s Images imageFile of
                    Inl err \<Rightarrow> (None, [Readdir Images, ReadFile Images imageFile])
                  | Inr imageBuffer \<Rightarrow>
                      (let ext = drop 1 (toLowerCase (extname imageFile)) in
                       (Some \<lparr>filepath = ''images/'' @ imageFile,
                              base64 = b64encode imageBuffer,
                              mediaType = mediaType_of ext\<rparr>,
                        [Readdir Images, ReadFile Images imageFile])))))"

text \<open>
  The reasoning capability. A response has the fields \<^verbatim>\<open>ok\<close> and \<^verbatim>\<open>status\<close>, its
  body as text, and the outcome of \<^verbatim>\<open>resp.json()\<close>, read at the schema of the
  Messages API: the \<^verbatim>\<open>content\<close> array (absent when the data has none), whose blocks
  have a \<^verbatim>\<open>type\<close> and may have a \<^verbatim>\<open>text\<close>.
\<close>

datatype block = Block (block_type: string) (block_text: "string option")

record http_response =
  ok :: bool
  status :: nat
  text_body :: string
  json_body :: "js_error + block list option"

text \<open>
  The environment of the MCP server: the API key, the reasoning capability (the outcome
  of \<^verbatim>\<open>fetch\<close> for the prompt sent) and the collation of the runtime.
\<close>

record mcp_env =
  ANTHROPIC_KEY :: "string option"
  fetch :: "string \<Rightarrow> js_error + http_response"
  localeCompare :: "string \<Rightarrow> string \<Rightarrow> int"

definition NL :: string where
  "NL = [CHR 0x0A]"

definition constructPrompt :: "string \<Rightarrow> string \<Rightarrow> string" where
  "constructPrompt question context =
     ''<context>'' @ NL @ context @ NL @ ''</context>'' @ NL @ NL @
     ''<instructions>'' @ NL @
     ''You are an AI assistant specialized in analyzing and retrieving information from timestamped transcripts and image descriptions.'' @ NL @ NL @
     ''Based on the information provided in the <context> tag, please answer the question below. Follow these guidelines:'' @ NL @ NL @
     ''1. Always provide a complete text answer to the question, explaining what you found in the context.'' @ NL @
     ''2. Prioritize more recent information (files with more recent timestamps) when relevant.'' @ NL @
     ''3. If one image is particularly relevant to answering this question, specify its timestamp using <relevant_image>timestamp</relevant_image> tags AFTER your complete answer.'' @ NL @
     ''</instructions>'' @ NL @ NL @
     ''<question>'' @ NL @ question @ NL @ ''</question>''"

text \<open>
  The regular expression \<^verbatim>\<open>/<relevant_image>(.*?)<\/relevant_image>/i\<close>. The letters
  of the tags match in either case; \<^verbatim>\<open>.\<close> does not match a line terminator (LF, CR,
  U+2028, U+2029); \<^verbatim>\<open>*?\<close> is lazy, so the payload ends at the first closing tag. The
  match is the leftmost one: \<open>find_marker\<close> returns the text before it, the payload and
  the text after it.
\<close>

definition ci_startsWith :: "string \<Rightarrow> string \<Rightarrow> bool" where
  "ci_startsWith s p = startsWith (toLowerCase s) p"

definition line_terminator :: "string \<Rightarrow> bool" where
  "line_terminator s =
     (startsWith s [CHR 0x0A] \<or> startsWith s [CHR 0x0D] \<or>
      startsWith s [CHR 0xE2, CHR 0x80, CHR 0xA8] \<or> startsWith s [CHR 0xE2, CHR 0x80, CHR 0xA9])"

fun match_payload :: "string \<Rightarrow> (string \<times> string) option" where
  "match_payload [] = None"
| "match_payload (c # cs) =
     (if ci_startsWith (c # cs) ''</relevant_image>''
        then Some ([], drop (length ''</relevant_image>'') (c # cs))
      else if line_terminator (c # cs) then None
      else map_option (\<lambda>(payload, rest). (c # payload, rest)) (match_payload cs))"

fun find_marker :: "string \<Rightarrow> (string \<times> string \<times> string) option" where
  "find_marker [] = None"
| "find_marker (c # cs) =
     (case (if ci_startsWith (c # cs) ''<relevant_image>''
            then match_payload (drop (length ''<relevant_image>'') (c # cs)) else None) of
        Some (payload, rest) \<Rightarrow> Some ([], payload, rest)
      | None \<Rightarrow> map_option (\<lambda>(before, payload, rest). (c # before, payload, rest)) (find_marker cs))"

record query_result =
  answer :: string
  relevantImageTimestamp :: "string option"

text \<open>\<^verbatim>\<open>data?.content?.[0]?.text\<close>\<close>

definition contentBlock :: "block list option \<Rightarrow> string option" where
  "contentBlock body =
     (case body of None \<Rightarrow> None | Some [] \<Rightarrow> None | Some (b # bs) \<Rightarrow> block_text b)"

definition processResponse :: "block list option \<Rightarrow> query_result" where
  "processResponse body =
     (case contentBlock body of
        None \<Rightarrow> \<lparr>answer = ''No answer provided.'', relevantImageTimestamp = None\<rparr>
      | Some txt \<Rightarrow>
          (case find_marker txt of
             None \<Rightarrow> \<lparr>answer = trim txt, relevantImageTimestamp = None\<rparr>
           | Some (before, payload, rest) \<Rightarrow>
               \<lparr>answer = trim (before @ rest), relevantImageTimestamp = Some (trim payload)\<rparr>))"

definition askAnthropicWithContext :: "mcp_env \<Rightarrow> string \<Rightarrow> string \<Rightarrow> js_error + query_result" where
  "askAnthropicWithContext env question context =
     (if ANTHROPIC_KEY env = None \<or> ANTHROPIC_KEY env = Some []
        then Inl (Error ''Anthropic API key missing (set ANTHROPIC_API_KEY)'')
      else
        (case fetch env (constructPrompt question context) of
           Inl err \<Rightarrow> Inl err
         | Inr resp \<Rightarrow>
             if \<not> ok resp
               then Inl (Error (''Anthropic API error: '' @ digits (status resp) @ '' '' @
                          [CHR 0xC3, CHR 0xA2, CHR 0xE2, CHR 0x82, CHR 0xAC, CHR 0xE2, CHR 0x80, CHR 0x9D] @
                          '' '' @ text_body resp))
             else
               (case json_body resp of
                  Inl err \<Rightarrow> Inl err
                | Inr body \<Rightarrow> Inr (processResponse body))))"

text \<open>The context: the parts pushed by \<open>answerFromContext\<close>, joined by line feeds.\<close>

fun join :: "string list \<Rightarrow> string \<Rightarrow> string" where
  "join [] sep = []"
| "join [x] sep = x"
| "join (x # y # ys) sep = x @ sep @ join (y # ys) sep"

definition timestamp_of :: "text_file \<Rightarrow> string" where
  "timestamp_of f = replace (filename f) ''.txt'' []"

definition transcriptParts :: "text_file \<Rightarrow> string list" where
  "transcriptParts f =
     [''<transcript timestamp='' @ [CHR 0x22] @ timestamp_of f @ [CHR 0x22] @ ''>'',
      NL @ content f @ NL,
      ''</transcript>'']"

definition imageDescriptionParts :: "text_file \<Rightarrow> string list" where
  "imageDescriptionParts f =
     [''<image_description timestamp='' @ [CHR 0x22] @ timestamp_of f @ [CHR 0x22] @ ''>'',
      NL @ content f @ NL,
      ''</image_description>'']"

definition contextParts :: "text_file list \<Rightarrow> text_file list \<Rightarrow> string list" where
  "contextParts transcriptFiles imageDescFiles =
     (if length transcriptFiles > 0
        then [''<transcripts>''] @ concat (map transcriptParts transcriptFiles) @ [''</transcripts>'']
        else []) @
     (if length imageDescFiles > 0
        then [''<image_descriptions>''] @ concat (map imageDescriptionParts imageDescFiles) @
             [''</image_descriptions>'']
        else [])"

definition buildFullContext :: "mcp_env \<Rightarrow> fs \<Rightarrow> string \<times> access list" where
  "buildFullContext env s =
     (let (transcriptFiles, acc1) = readTextFilesFromDir (localeCompare env) s Transcripts;
          (imageDescFiles, acc2) = readTextFilesFromDir (localeCompare env) s Images
      in (join (contextParts transcriptFiles imageDescFiles) NL, acc1 @ acc2))"

text \<open>The result of the tool: the parts of the response, in order.\<close>

datatype part =
    ImagePart (data: string) (mimeType: string) (alt: string)
  | TextPart (part_text: string)

definition addImageIfRelevant :: "fs \<Rightarrow> string option \<Rightarrow> part list \<times> access list" where
  "addImageIfRelevant s cited =
     (case cited of
        None \<Rightarrow> ([], [])
      | Some t \<Rightarrow>
          if t = [] then ([], [])
          else
            (case getCorrespondingImage s (t @ ''.txt'') of
               (None, acc) \<Rightarrow> ([], acc)
             | (Some img, acc) \<Rightarrow>
                 ([ImagePart (base64 img) (mediaType img) ''Relevant image for your query''],
                  acc)))"

definition buildResponse :: "fs \<Rightarrow> string \<Rightarrow> string option \<Rightarrow> part list \<times> access list" where
  "buildResponse s ans cited =
     (let (responseContent, acc) = addImageIfRelevant s cited
      in (responseContent @ [TextPart ans], acc))"

text \<open>
  The parameter \<^verbatim>\<open>question\<close> is any JSON value or undefined (\<open>None\<close>); the test
  \<^verbatim>\<open>!question || typeof question !== 'string'\<close> lets the non-empty strings through.
\<close>

datatype json =
    JNull
  | JBool bool
  | JNumber int
  | JString string
  | JArray "json list"
  | JObject "(string \<times> json) list"

definition answerFromContext ::
    "mcp_env \<Rightarrow> fs \<Rightarrow> json option \<Rightarrow> (js_error + part list) \<times> access list" where
  "answerFromContext env s question =
     (case question of
        Some (JString q) \<Rightarrow>
          if q = [] then (Inl (Error (''Missing or invalid '' @ [CHR 0x27] @ ''question'' @ [CHR 0x27] @ '' parameter'')), [])
          else
            (let (fullContext, acc1) = buildFullContext env s in
             case askAnthropicWithContext env q fullContext of
               Inl err \<Rightarrow> (Inl err, acc1)
             | Inr result \<Rightarrow>
                 (let (responseContent, acc2) =
                        buildResponse s (answer result) (relevantImageTimestamp result)
                  in (Inr responseContent, acc1 @ acc2)))
      | _ \<Rightarrow> (Inl (Error (''Missing or invalid '' @ [CHR 0x27] @ ''question'' @ [CHR 0x27] @ '' parameter'')), []))"

section \<open>Web server (web-server/index.js)\<close>

text \<open>
  The environment of a request: the API key of the configuration, the vision capability
  (the outcome of \<^verbatim>\<open>fetch\<close> for the base64 data and the media type sent), and the
  instant that \<^verbatim>\<open>timestampName\<close> reads from the clock. The handlers thread the file
  system through and return the reply they send.
\<close>

record web_env =
  key :: "string option"
  fetch_vision :: "string \<Rightarrow> string \<Rightarrow> js_error + http_response"
  now :: date

record reply =
  statusCode :: nat
  payload :: json

definition describeImageWithAnthropic :: "web_env \<Rightarrow> string \<Rightarrow> string \<Rightarrow> js_error + string" where
  "describeImageWithAnthropic env base64Data mt =
     (if key env = None \<or> key env = Some []
        then Inl (Error ''Anthropic API key missing (set ANTHROPIC_API_KEY)'')
      else
        (case fetch_vision env base64Data mt of
           Inl err \<Rightarrow> Inl err
         | Inr resp \<Rightarrow>
             if \<not> ok resp
               then Inl (Error (''Anthropic API error: '' @ digits (status resp) @ '' '' @
                          [CHR 0xE2, CHR 0x80, CHR 0x94] @ '' '' @ text_body resp))
             else
               (case json_body resp of
                  Inl err \<Rightarrow> Inl err
                | Inr body \<Rightarrow>
                    Inr (case body of
                           None \<Rightarrow> ''No description returned.''
                         | Some blocks \<Rightarrow>
                             (case find (\<lambda>c. block_type c = ''text'') blocks of
                                None \<Rightarrow> ''No description returned.''
                              | Some c \<Rightarrow>
                                  (case block_text c of
                                     None \<Rightarrow> ''No description returned.''
                                   | Some t \<Rightarrow> t))))))"

text \<open>
  Reading a property of the parsed body. The read of a property of \<^verbatim>\<open>null\<close> throws;
  an object gives the value of the key (the last one, when the JSON text repeats a key);
  on any other value the names the handlers read (\<^verbatim>\<open>transcript\<close>, \<^verbatim>\<open>image\<close>,
  \<^verbatim>\<open>mediaType\<close>) are undefined.
\<close>

definition read_property :: "json \<Rightarrow> string \<Rightarrow> js_error + json option" where
  "read_property v k =
     (case v of
        JNull \<Rightarrow>
          Inl (TypeError (''Cannot read properties of null (reading '' @ [CHR 0x27] @ k @
                 [CHR 0x27] @ '')''))
      | JObject kvs \<Rightarrow> Inr (map_of (rev kvs) k)
      | _ \<Rightarrow> Inr None)"

definition ensureDir :: "fs \<Rightarrow> category \<Rightarrow> js_error + fs" where
  "ensureDir s dir = mkdir s dir"

definition handleTranscriptUpload :: "web_env \<Rightarrow> fs \<Rightarrow> json \<Rightarrow> (js_error + reply) \<times> fs" where
  "handleTranscriptUpload env s body =
     (case ensureDir s Transcripts of
        Inl err \<Rightarrow> (Inl err, s)
      | Inr s1 \<Rightarrow>
          (let name = timestampName (now env) @ ''.txt'' in
           case read_property body ''transcript'' of
             Inr (Some (JString transcript)) \<Rightarrow>
               (case writeFile s1 Transcripts name transcript of
                  Inl err \<Rightarrow> (Inl err, s1)
                | Inr s2 \<Rightarrow>
                    (Inr \<lparr>statusCode = 200,
                          payload = JObject [(''saved'', JString (''transcripts/'' @ name))]\<rparr>,
                     s2))
           | Inl err \<Rightarrow> (Inl err, s1)
           | Inr _ \<Rightarrow>
               (Inl (TypeError (''The '' @ [CHR 0x22] @ ''data'' @ [CHR 0x22] @
                      '' argument must be of type string or an instance of Buffer, TypedArray, or DataView.'')),
                s1)))"

text \<open>
  \<^verbatim>\<open>mediaType.split('/')[1]\<close> inside the template literal: the second piece, or the
  text \<^verbatim>\<open>undefined\<close> when there is none. A media type given as a JSON value that is
  not a string has no method \<^verbatim>\<open>split\<close>.
\<close>

definition extension_of :: "string \<Rightarrow> string" where
  "extension_of mt = (case split mt CHR ''/'' of a # b # rest \<Rightarrow> b | _ \<Rightarrow> ''undefined'')"

definition handleImageUpload :: "web_env \<Rightarrow> fs \<Rightarrow> json \<Rightarrow> (js_error + reply) \<times> fs" where
  "handleImageUpload env s body =
     (case read_property body ''mediaType'' of
        Inl err \<Rightarrow> (Inl err, s)
      | Inr m \<Rightarrow>
          (let mediaType = (case m of None \<Rightarrow> JString ''image/png'' | Some JNull \<Rightarrow> JString ''image/png''
                            | Some v \<Rightarrow> v) in
           case ensureDir s Images of
             Inl err \<Rightarrow> (Inl err, s)
           | Inr s1 \<Rightarrow>
               (let baseName = timestampName (now env) in
                case mediaType of
                  JString mt \<Rightarrow>
                    (let imgName = baseName @ ''.'' @ extension_of mt;
                         txtName = baseName @ ''.txt'' in
                     case read_property body ''image'' of
                       Inr (Some (JString img)) \<Rightarrow>
                         (case writeFile s1 Images imgName (b64decode img) of
                            Inl err \<Rightarrow> (Inl err, s1)
                          | Inr s2 \<Rightarrow>
                              (case describeImageWithAnthropic env img mt of
                                 Inl err \<Rightarrow> (Inl err, s2)
                               | Inr description \<Rightarrow>
                                   (case writeFile s2 Images txtName description of
                                      Inl err \<Rightarrow> (Inl err, s2)
                                    | Inr s3 \<Rightarrow>
                                        (Inr \<lparr>statusCode = 200,
                                              payload = JObject
                                                [(''saved_image'', JString (''images/'' @ imgName)),
                                                 (''description_file'', JString (''images/'' @ txtName))]\<rparr>,
                                         s3))))
                     | Inl err \<Rightarrow> (Inl err, s1)
                     | Inr _ \<Rightarrow>
                         (Inl (TypeError ''The first argument must be of type string or an instance of Buffer, ArrayBuffer, or Array or an Array-like Object.''),
                          s1))
                | _ \<Rightarrow> (Inl (TypeError ''mediaType.split is not a function''), s1))))"

definition error_reply :: "js_error \<Rightarrow> reply" where
  "error_reply err = \<lparr>statusCode = 500, payload = JObject [(''error'', JString (message err))]\<rparr>"

text \<open>
  The request is given by the outcome of \<^verbatim>\<open>consumeJSON(req)\<close>: the parsed body, or
  the error of a body that is not JSON.
\<close>

definition handleMediaRequest :: "web_env \<Rightarrow> fs \<Rightarrow> js_error + json \<Rightarrow> reply \<times> fs" where
  "handleMediaRequest env s req =
     (case req of
        Inl err \<Rightarrow> (error_reply err, s)
      | Inr body \<Rightarrow>
          (case read_property body ''transcript'' of
             Inl err \<Rightarrow> (error_reply err, s)
           | Inr (Some (JString t)) \<Rightarrow>
               (case handleTranscriptUpload env s body of
                  (Inl err, s') \<Rightarrow> (error_reply err, s')
                | (Inr r, s') \<Rightarrow> (r, s'))
           | Inr _ \<Rightarrow>
               (case read_property body ''image'' of
                  Inl err \<Rightarrow> (error_reply err, s)
                | Inr (Some (JString i)) \<Rightarrow>
                    (case handleImageUpload env s body of
                       (Inl err, s') \<Rightarrow> (error_reply err, s')
                     | (Inr r, s') \<Rightarrow> (r, s'))
                | Inr _ \<Rightarrow>
                    (\<lparr>statusCode = 400,
                      payload = JObject
                        [(''error'',
                          JString (''Request must include a '' @ [CHR 0x22] @ ''transcript'' @
                            [CHR 0x22] @ '' or '' @ [CHR 0x22] @ ''image'' @ [CHR 0x22] @
                            '' field.''))]\<rparr>,
                     s))))"


section \<open>Notions used to state the properties\<close>



text \<open>The fields of a local time that \<open>timestampName\<close> writes, in its order.\<close>

definition clock_fields :: "int \<Rightarrow> int list" where
  "clock_fields t =
     [YearFromTime t, MonthFromTime t, DateFromTime t, HourFromTime t, MinFromTime t,
      SecFromTime t]"

text \<open>
  The comparison of two strings by their bytes, as a collation. On canonical timestamps
  the collation of the runtime gives the same order.
\<close>

definition byte_compare :: "string \<Rightarrow> string \<Rightarrow> int" where
  "byte_compare a b = (if a < b then - 1 else if a = b then 0 else 1)"








section \<open>Concrete inputs\<close>

text \<open>
  Three instants read in Tokyo (UTC+9): 2025-05-17 02:40:24.900 UTC, the instant one
  second later, and an instant 300 ms after that one.
\<close>

definition date_a :: date where
  "date_a = \<lparr>getTime = 1747449624900, offsetSeconds = 32400\<rparr>"

definition date_b :: date where
  "date_b = \<lparr>getTime = 1747449625900, offsetSeconds = 32400\<rparr>"

definition date_c :: date where
  "date_c = \<lparr>getTime = 1747449625600, offsetSeconds = 32400\<rparr>"

text \<open>
  The end of daylight saving time in New York on 2025-11-02: the last second of EDT
  (UTC-4) and the first second of EST (UTC-5).
\<close>

definition date_edt :: date where
  "date_edt = \<lparr>getTime = 1762063199000, offsetSeconds = - 14400\<rparr>"

definition date_est :: date where
  "date_est = \<lparr>getTime = 1762063200000, offsetSeconds = - 18000\<rparr>"

text \<open>The last second of the year 9999 and the first second of the year 10000, in UTC.\<close>

definition date_y9999 :: date where
  "date_y9999 = \<lparr>getTime = 253402300799000, offsetSeconds = 0\<rparr>"

definition date_y10000 :: date where
  "date_y10000 = \<lparr>getTime = 253402300800000, offsetSeconds = 0\<rparr>"

definition fs_w :: fs where
  "fs_w = \<lparr>dirs = (\<lambda>d. case d of
              Transcripts \<Rightarrow> Some [(''2025-05-17-02-40-20.txt'', File ''hello'')]
            | Images \<Rightarrow> Some [(''2025-05-17-02-40-24.txt'', File ''a cat''),
                              (''2025-05-17-02-40-24.png'', File ''PNGDATA'')]),
          readdir_fault = (\<lambda>d. None), mkdir_fault = (\<lambda>d. None),
          write_fault = (\<lambda>d n. None), slot = (\<lambda>d n. 0)\<rparr>"

definition reply_of :: "string \<Rightarrow> http_response" where
  "reply_of t = \<lparr>ok = True, status = 200, text_body = [], json_body = Inr (Some [Block ''text'' (Some t)])\<rparr>"

definition env_cite :: mcp_env where
  "env_cite = \<lparr>ANTHROPIC_KEY = Some ''k'',
     fetch = (\<lambda>p. Inr (reply_of ''<relevant_image>2025-05-17-02-40-24</relevant_image>'')),
     localeCompare = byte_compare\<rparr>"

definition env_plain :: mcp_env where
  "env_plain = \<lparr>ANTHROPIC_KEY = Some ''k'', fetch = (\<lambda>p. Inr (reply_of '' Nothing found. '')),
     localeCompare = byte_compare\<rparr>"



section \<open>Properties of the calendar\<close>

lemma year_search_spec:
  "DayFromYear y \<le> day \<Longrightarrow>
     DayFromYear (year_search y day) \<le> day \<and> day < DayFromYear (year_search y day + 1)"
proof (induction y day rule: year_search.induct)
  case (1 y day)
  show ?case
  proof (cases "DayFromYear (y + 1) \<le> day")
    case True
    with "1.IH" show ?thesis by (simp add: year_search.simps [of y day])
  next
    case False
    with "1.prems" show ?thesis by (simp add: year_search.simps [of y day])
  qed
qed

lemma DayFromYear_1970: "DayFromYear 1970 = 0"
  by (simp add: DayFromYear_def)

lemma DayFromYear_after: "DayFromYear (1970 + int k) \<le> 366 * int k"
proof (induction k)
  case 0
  show ?case by (simp add: DayFromYear_1970)
next
  case (Suc k)
  have "DayFromYear (1970 + int (Suc k)) = DayFromYear (1970 + int k) + DaysInYear (1970 + int k)"
    using DayFromYear_step [of "1970 + int k"] by (simp add: add.commute add.left_commute)
  with Suc DaysInYear_bounds(2) [of "1970 + int k"] show ?case by simp
qed

lemma DayFromYear_before: "DayFromYear (1970 - int k) \<le> - 365 * int k"
proof (induction k)
  case 0
  show ?case by (simp add: DayFromYear_1970)
next
  case (Suc k)
  have "DayFromYear (1970 - int k) =
          DayFromYear (1970 - int (Suc k)) + DaysInYear (1970 - int (Suc k))"
    using DayFromYear_step [of "1970 - int (Suc k)"] by simp
  with Suc DaysInYear_bounds(1) [of "1970 - int (Suc k)"] show ?case by simp
qed

lemma start_year_below:
  "DayFromYear (1970 + (if 0 \<le> day then day div 366 else day div 365)) \<le> day"
proof (cases "0 \<le> day")
  case True
  then have "0 \<le> day div 366" by simp
  then obtain k where k: "day div 366 = int k" using nonneg_int_cases by blast
  have "366 * (day div 366) \<le> day"
    using mult_div_mod_eq [of 366 day] pos_mod_sign [of 366 day] by linarith
  with DayFromYear_after [of k] True show ?thesis by (simp add: k)
next
  case False
  then have "day div 365 < 0" by (simp add: div_neg_pos_less0)
  then obtain k where k: "day div 365 = - int k" using nonpos_int_cases [of "day div 365"] by auto
  have "365 * (day div 365) \<le> day"
    using mult_div_mod_eq [of 365 day] pos_mod_sign [of 365 day] by linarith
  with DayFromYear_before [of k] False show ?thesis by (simp add: k)
qed

lemma YearFromDay_spec:
  "DayFromYear (YearFromDay day) \<le> day" "day < DayFromYear (YearFromDay day + 1)"
  using year_search_spec [OF start_year_below [of day]] by (simp_all add: YearFromDay_def)

lemma DayFromYear_mono_nat: "DayFromYear y \<le> DayFromYear (y + int k)"
proof (induction k)
  case 0
  show ?case by simp
next
  case (Suc k)
  have "DayFromYear (y + int (Suc k)) = DayFromYear (y + int k) + DaysInYear (y + int k)"
    using DayFromYear_step [of "y + int k"] by (simp add: add.commute add.left_commute)
  with Suc DaysInYear_bounds(1) [of "y + int k"] show ?case by simp
qed

lemma DayFromYear_mono: "y \<le> z \<Longrightarrow> DayFromYear y \<le> DayFromYear z"
  using DayFromYear_mono_nat [of y "nat (z - y)"] by simp

lemma YearFromDay_mono: "a \<le> b \<Longrightarrow> YearFromDay a \<le> YearFromDay b"
proof (rule ccontr)
  assume ab: "a \<le> b" and "\<not> YearFromDay a \<le> YearFromDay b"
  then have "YearFromDay b + 1 \<le> YearFromDay a" by simp
  from DayFromYear_mono [OF this] YearFromDay_spec(1) [of a] YearFromDay_spec(2) [of b] ab
  show False by simp
qed

lemma day_within_year:
  "0 \<le> day - DayFromYear (YearFromDay day)"
  "day - DayFromYear (YearFromDay day) < DaysInYear (YearFromDay day)"
  using YearFromDay_spec [of day] DayFromYear_step [of "YearFromDay day"] by simp_all

lemma month_of_range: "0 \<le> month_of d l" "month_of d l \<le> 11"
  by (simp_all add: month_of_def)

lemma date_of_range:
  "0 \<le> d \<Longrightarrow> d < 365 + l \<Longrightarrow> 0 \<le> l \<Longrightarrow> l \<le> 1 \<Longrightarrow> 1 \<le> date_of d l \<and> date_of d l \<le> 31"
  by (simp add: date_of_def month_of_def Let_def)

lemma month_date_less:
  "0 \<le> d1 \<Longrightarrow> d1 < d2 \<Longrightarrow> 0 \<le> l \<Longrightarrow> l \<le> 1 \<Longrightarrow>
     month_of d1 l < month_of d2 l \<or> month_of d1 l = month_of d2 l \<and> date_of d1 l < date_of d2 l"
  by (simp add: date_of_def month_of_def Let_def)

lemma int_div_mod_less:
  assumes "0 < (b::int)" "x < y"
  shows "x div b < y div b \<or> x div b = y div b \<and> x mod b < y mod b"
proof (cases "x div b = y div b")
  case True
  from minus_mult_div_eq_mod [of x b] minus_mult_div_eq_mod [of y b] True assms(2)
  have "x mod b < y mod b" by simp
  with True show ?thesis by simp
next
  case False
  moreover have "x div b \<le> y div b" using assms by (simp add: zdiv_mono1)
  ultimately show ?thesis by simp
qed

lemma Day_seconds: "Day t = t div 1000 div 86400"
  using zdiv_zmult2_eq [of 86400 t 1000] by (simp add: Day_def)

lemma HourFromTime_seconds: "HourFromTime t = t div 1000 div 60 div 60 mod 24"
  using zdiv_zmult2_eq [of 60 t 1000] zdiv_zmult2_eq [of 60 t 60000]
  by (simp add: HourFromTime_def)

lemma MinFromTime_seconds: "MinFromTime t = t div 1000 div 60 mod 60"
  using zdiv_zmult2_eq [of 60 t 1000] by (simp add: MinFromTime_def)

lemma Day_hours: "Day t = t div 1000 div 60 div 60 div 24"
  using zdiv_zmult2_eq [of 60 "t div 1000" 60] zdiv_zmult2_eq [of 24 "t div 1000" 3600]
  by (simp add: Day_seconds)

lemma InLeapYear_range: "0 \<le> InLeapYear t" "InLeapYear t \<le> 1"
  by (simp_all add: InLeapYear_def)

lemma DaysInYear_leap: "DaysInYear (YearFromTime t) = 365 + InLeapYear t"
  by (simp add: InLeapYear_def DaysInYear_def)

lemma DayWithinYear_range: "0 \<le> DayWithinYear t" "DayWithinYear t < 365 + InLeapYear t"
  using day_within_year [of "Day t"]
  by (simp_all add: DayWithinYear_def YearFromTime_def DaysInYear_leap [symmetric])

lemma MonthFromTime_range: "0 \<le> MonthFromTime t" "MonthFromTime t \<le> 11"
  by (simp_all add: MonthFromTime_def month_of_range)

lemma DateFromTime_range: "1 \<le> DateFromTime t" "DateFromTime t \<le> 31"
  using date_of_range [OF DayWithinYear_range(1) [of t] DayWithinYear_range(2) [of t]
      InLeapYear_range(1) [of t] InLeapYear_range(2) [of t]]
  by (simp_all add: DateFromTime_def)

text \<open>The date of a later day is later: year, month and day of the month in this order.\<close>

lemma date_less:
  assumes "Day t1 < Day t2"
  shows "YearFromTime t1 < YearFromTime t2 \<or>
         YearFromTime t1 = YearFromTime t2 \<and>
           (MonthFromTime t1 < MonthFromTime t2 \<or>
            MonthFromTime t1 = MonthFromTime t2 \<and> DateFromTime t1 < DateFromTime t2)"
proof (cases "YearFromTime t1 = YearFromTime t2")
  case True
  then have l: "InLeapYear t1 = InLeapYear t2" by (simp add: InLeapYear_def)
  have d: "DayWithinYear t1 < DayWithinYear t2"
    using assms True by (simp add: DayWithinYear_def)
  from month_date_less [OF DayWithinYear_range(1) [of t1] d InLeapYear_range(1) [of t1]
      InLeapYear_range(2) [of t1]] True l
  show ?thesis by (simp add: MonthFromTime_def DateFromTime_def)
next
  case False
  moreover have "YearFromTime t1 \<le> YearFromTime t2"
    using assms by (simp add: YearFromTime_def YearFromDay_mono)
  ultimately show ?thesis by simp
qed

lemma date_eq:
  assumes "Day t1 = Day t2"
  shows "YearFromTime t1 = YearFromTime t2" "MonthFromTime t1 = MonthFromTime t2"
    "DateFromTime t1 = DateFromTime t2"
  using assms
  by (simp_all add: YearFromTime_def MonthFromTime_def DateFromTime_def DayWithinYear_def
      InLeapYear_def)

lemma clock_fields_eq:
  assumes "t1 div 1000 = t2 div 1000"
  shows "clock_fields t1 = clock_fields t2"
proof -
  have d: "Day t1 = Day t2"
    by (simp add: Day_seconds assms)
  have "HourFromTime t1 = HourFromTime t2" "MinFromTime t1 = MinFromTime t2"
    "SecFromTime t1 = SecFromTime t2"
    by (simp_all add: HourFromTime_seconds MinFromTime_seconds SecFromTime_def assms)
  with date_eq [OF d] show ?thesis
    by (simp add: clock_fields_def)
qed

lemma clock_fields_less:
  assumes "t1 div 1000 < t2 div 1000"
  shows "clock_fields t1 < clock_fields t2"
proof -
  define s1 s2 where "s1 = t1 div 1000" and "s2 = t2 div 1000"
  define m1 m2 where "m1 = s1 div 60" and "m2 = s2 div 60"
  define h1 h2 where "h1 = m1 div 60" and "h2 = m2 div 60"
  have day: "Day t1 = h1 div 24" "Day t2 = h2 div 24"
    by (simp_all add: Day_hours h1_def h2_def m1_def m2_def s1_def s2_def)
  have tod: "HourFromTime t1 = h1 mod 24" "HourFromTime t2 = h2 mod 24"
    "MinFromTime t1 = m1 mod 60" "MinFromTime t2 = m2 mod 60"
    "SecFromTime t1 = s1 mod 60" "SecFromTime t2 = s2 mod 60"
    by (simp_all add: HourFromTime_seconds MinFromTime_seconds SecFromTime_def
        h1_def h2_def m1_def m2_def s1_def s2_def)
  from assms have "s1 < s2" by (simp add: s1_def s2_def)
  then consider (sec) "m1 = m2" "s1 mod 60 < s2 mod 60" | (min) "m1 < m2"
    using int_div_mod_less [of 60 s1 s2] by (auto simp add: m1_def m2_def)
  then show ?thesis
  proof cases
    case sec
    then have "h1 = h2" by (simp add: h1_def h2_def)
    with sec date_eq [of t1 t2] show ?thesis
      by (simp add: clock_fields_def tod day)
  next
    case min
    then consider (a) "h1 = h2" "m1 mod 60 < m2 mod 60" | (b) "h1 < h2"
      using int_div_mod_less [of 60 m1 m2] by (auto simp add: h1_def h2_def)
    then show ?thesis
    proof cases
      case a
      with date_eq [of t1 t2] show ?thesis
        by (simp add: clock_fields_def tod day)
    next
      case b
      then consider (c) "h1 div 24 = h2 div 24" "h1 mod 24 < h2 mod 24" | (d) "h1 div 24 < h2 div 24"
        using int_div_mod_less [of 24 h1 h2] by auto
      then show ?thesis
      proof cases
        case c
        with date_eq [of t1 t2] show ?thesis
          by (simp add: clock_fields_def tod day)
      next
        case d
        then have "Day t1 < Day t2" by (simp add: day)
        from date_less [OF this] show ?thesis
          by (auto simp add: clock_fields_def)
      qed
    qed
  qed
qed

section \<open>Properties of the timestamp codec\<close>

lemma append_less_append:
  "length a = length b \<Longrightarrow> (a @ x < b @ y) = (a < b \<or> a = b \<and> x < (y :: 'a :: linorder list))"
  by (induction a b rule: list_induct2) auto

lemma digit_char_less: "a < 10 \<Longrightarrow> b < 10 \<Longrightarrow> (digit_char a < digit_char b) = (a < b)"
  by (simp add: digit_char_def less_char_def)

lemma digit_char_eq: "a < 10 \<Longrightarrow> b < 10 \<Longrightarrow> (digit_char a = digit_char b) = (a = b)"
  by (simp add: digit_char_def)

lemma digits_length_pos: "0 < length (digits n)"
  by (subst digits.simps) simp

lemma digits_length_one: "(length (digits n) = Suc 0) = (n < 10)"
  using digits_length_pos [of "n div 10"] by (subst digits.simps) auto

lemma nat_less_div_mod:
  "((m::nat) < n) = (m div 10 < n div 10 \<or> m div 10 = n div 10 \<and> m mod 10 < n mod 10)"
proof -
  define a b c d where "a = m div 10" and "b = m mod 10" and "c = n div 10" and "d = n mod 10"
  have e: "m = 10 * a + b" "n = 10 * c + d" and r: "b < 10" "d < 10"
    by (simp_all add: a_def b_def c_def d_def)
  have "(10 * a + b < 10 * c + d) = (a < c \<or> a = c \<and> b < d)"
    using r by linarith
  then show ?thesis
    unfolding a_def b_def c_def d_def by simp
qed

lemma nat_eq_div_mod: "((m::nat) = n) = (m div 10 = n div 10 \<and> m mod 10 = n mod 10)"
  by (metis div_mult_mod_eq)

text \<open>Decimal numerals of the same length are ordered as the numbers they denote.\<close>

lemma digits_order:
  "length (digits m) = length (digits n) \<Longrightarrow>
     (digits m < digits n) = (m < n) \<and> (digits m = digits n) = (m = n)"
proof (induction m arbitrary: n rule: digits.induct)
  case (1 m)
  show ?case
  proof (cases "m < 10")
    case True
    with "1.prems" have "n < 10"
      using digits_length_one [of n] digits_length_one [of m] by simp
    with True show ?thesis
      by (simp add: digits.simps [of m] digits.simps [of n] digit_char_less digit_char_eq)
  next
    case False
    with "1.prems" have n: "\<not> n < 10"
      using digits_length_one [of n] digits_length_one [of m] by simp
    from False n "1.prems" have len: "length (digits (m div 10)) = length (digits (n div 10))"
      by (simp add: digits.simps [of m] digits.simps [of n])
    note IH = "1.IH" [OF False len]
    have "(digits m < digits n) = (m < n)"
      using False n IH len
      by (simp add: digits.simps [of m] digits.simps [of n] append_less_append digit_char_less
          nat_less_div_mod [of m n])
    moreover have "(digits m = digits n) = (m = n)"
      using False n IH len
      by (simp add: digits.simps [of m] digits.simps [of n] digit_char_eq nat_eq_div_mod [of m n])
    ultimately show ?thesis by simp
  qed
qed

lemma zero_char: "CHR ''0'' = digit_char 0"
  by (simp add: digit_char_def char_of_def bit_Suc_0_iff)

lemma pad_two:
  "0 \<le> n \<Longrightarrow> n < 100 \<Longrightarrow> pad n = [digit_char (nat n div 10), digit_char (nat n mod 10)]"
  by (auto simp add: pad_def padStart_def String_def digits.simps [of "nat n"]
      digits.simps [of "nat n div 10"] zero_char)

lemma pad_order:
  assumes "0 \<le> m" "m < 100" "0 \<le> n" "n < 100"
  shows "(pad m < pad n) = (m < n)" and "(pad m = pad n) = (m = n)"
proof -
  define a where "a = nat m"
  define b where "b = nat n"
  have r: "a div 10 < 10" "a mod 10 < 10" "b div 10 < 10" "b mod 10 < 10"
    using assms by (auto simp add: a_def b_def)
  have p: "pad m = [digit_char (a div 10), digit_char (a mod 10)]"
    "pad n = [digit_char (b div 10), digit_char (b mod 10)]"
    using assms by (simp_all add: pad_two a_def b_def)
  have "(pad m < pad n) = (a < b)"
    using r by (simp add: p digit_char_less digit_char_eq nat_less_div_mod [of a b])
  then show "(pad m < pad n) = (m < n)"
    using assms by (auto simp add: a_def b_def)
  have "(pad m = pad n) = (a = b)"
    using r by (simp add: p digit_char_eq nat_eq_div_mod [of a b])
  then show "(pad m = pad n) = (m = n)"
    using assms by (auto simp add: a_def b_def)
qed

lemma pad_length: "0 \<le> n \<Longrightarrow> n < 100 \<Longrightarrow> length (pad n) = 2"
  by (simp add: pad_two)

lemma year_order:
  assumes "0 \<le> y" "0 \<le> z" "length (String y) = length (String z)"
  shows "(String y < String z) = (y < z)" and "(String y = String z) = (y = z)"
proof -
  from assms have "length (digits (nat y)) = length (digits (nat z))"
    by (simp add: String_def)
  from digits_order [OF this] assms(1,2)
  show "(String y < String z) = (y < z)" "(String y = String z) = (y = z)"
    by (auto simp add: String_def)
qed

lemma getter_ranges:
  "0 \<le> getMonth d + 1" "getMonth d + 1 < 100" "0 \<le> getDate d" "getDate d < 100"
  "0 \<le> getHours d" "getHours d < 100" "0 \<le> getMinutes d" "getMinutes d < 100"
  "0 \<le> getSeconds d" "getSeconds d < 100"
  using MonthFromTime_range [of "LocalTime d"] DateFromTime_range [of "LocalTime d"]
  by (simp_all add: getMonth_def getDate_def getHours_def getMinutes_def getSeconds_def
      HourFromTime_def MinFromTime_def SecFromTime_def)

lemma clock_fields_getters:
  "clock_fields (LocalTime d) =
     [getFullYear d, getMonth d, getDate d, getHours d, getMinutes d, getSeconds d]"
  by (simp add: clock_fields_def getFullYear_def getMonth_def getDate_def getHours_def
      getMinutes_def getSeconds_def)

text \<open>
  For years that are not negative and are written with equally many digits, the encoded
  strings are ordered as the clock fields are.
\<close>

lemma timestampName_less:
  assumes "0 \<le> getFullYear d1" "0 \<le> getFullYear d2"
    and "length (String (getFullYear d1)) = length (String (getFullYear d2))"
  shows "(timestampName d1 < timestampName d2) =
           (clock_fields (LocalTime d1) < clock_fields (LocalTime d2))"
proof -
  note y = year_order [OF assms]
  have pl: "length (pad (getMonth d1 + 1)) = length (pad (getMonth d2 + 1))"
    "length (pad (getDate d1)) = length (pad (getDate d2))"
    "length (pad (getHours d1)) = length (pad (getHours d2))"
    "length (pad (getMinutes d1)) = length (pad (getMinutes d2))"
    by (simp_all add: pad_length getter_ranges)
  show ?thesis
    unfolding clock_fields_getters timestampName_def
    by (simp add: append_less_append assms(3) pl y pad_order getter_ranges) auto
qed

lemma timestampName_eq:
  assumes "clock_fields (LocalTime d1) = clock_fields (LocalTime d2)"
  shows "timestampName d1 = timestampName d2"
  using assms unfolding clock_fields_getters by (simp add: timestampName_def)

lemma local_second_less:
  assumes "offsetSeconds d1 = offsetSeconds d2" "getTime d1 + 1000 \<le> getTime d2"
  shows "LocalTime d1 div 1000 < LocalTime d2 div 1000"
proof -
  have "LocalTime d1 + 1000 \<le> LocalTime d2"
    using assms by (simp add: LocalTime_def)
  then have "(LocalTime d1 + 1000) div 1000 \<le> LocalTime d2 div 1000"
    by (rule zdiv_mono1) simp
  then show ?thesis by simp
qed

lemma local_second_eq:
  assumes "offsetSeconds d1 = offsetSeconds d2" "getTime d1 div 1000 = getTime d2 div 1000"
  shows "LocalTime d1 div 1000 = LocalTime d2 div 1000"
  using assms by (simp add: LocalTime_def)

lemma timestampName_later:
  assumes "offsetSeconds d1 = offsetSeconds d2"
    and "0 \<le> getFullYear d1" "0 \<le> getFullYear d2"
    and "length (String (getFullYear d1)) = length (String (getFullYear d2))"
    and "getTime d1 + 1000 \<le> getTime d2"
  shows "timestampName d1 < timestampName d2"
  using clock_fields_less [OF local_second_less [OF assms(1,5)]]
  by (simp add: timestampName_less [OF assms(2-4)])

text \<open>
  C9 (amended). Take two instants at which the local zone has the same offset from UTC
  and whose local years are not negative and are written with equally many digits. When
  the instants are at least one second apart, the lexicographic order of their encoded
  timestamps is their chronological order; when they lie in the same second, their
  encoded timestamps are equal.
\<close>

theorem timestampName_chronological:
  assumes "offsetSeconds d1 = offsetSeconds d2"
    and "0 \<le> getFullYear d1" "0 \<le> getFullYear d2"
    and "length (String (getFullYear d1)) = length (String (getFullYear d2))"
  shows "(getTime d1 + 1000 \<le> getTime d2 \<or> getTime d2 + 1000 \<le> getTime d1 \<longrightarrow>
            (timestampName d1 < timestampName d2) = (getTime d1 < getTime d2)) \<and>
         (getTime d1 div 1000 = getTime d2 div 1000 \<longrightarrow>
            timestampName d1 = timestampName d2)"
proof (intro conjI impI)
  assume "getTime d1 + 1000 \<le> getTime d2 \<or> getTime d2 + 1000 \<le> getTime d1"
  then show "(timestampName d1 < timestampName d2) = (getTime d1 < getTime d2)"
  proof
    assume a: "getTime d1 + 1000 \<le> getTime d2"
    from timestampName_later [OF assms a] a show ?thesis by simp
  next
    assume a: "getTime d2 + 1000 \<le> getTime d1"
    from timestampName_later [OF assms(1) [symmetric] assms(3,2) assms(4) [symmetric] a]
    have "\<not> timestampName d1 < timestampName d2" by simp
    with a show ?thesis by simp
  qed
next
  assume "getTime d1 div 1000 = getTime d2 div 1000"
  from clock_fields_eq [OF local_second_eq [OF assms(1) this]]
  show "timestampName d1 = timestampName d2" by (rule timestampName_eq)
qed

lemma digits_lt10: "n < 10 \<Longrightarrow> digits n = [digit_char n]"
  by (simp add: digits.simps)

lemma digits_ge10: "\<not> n < 10 \<Longrightarrow> digits n = digits (n div 10) @ [digit_char (n mod 10)]"
  by (subst digits.simps) simp

lemma year_search_step:
  "DayFromYear (y + 1) \<le> day \<Longrightarrow> year_search y day = year_search (y + 1) day"
  by (simp add: year_search.simps [of y day])

lemma year_search_stop: "\<not> DayFromYear (y + 1) \<le> day \<Longrightarrow> year_search y day = y"
  by (simp add: year_search.simps [of y day])

lemmas char_eval = char_of_def bit_Suc_0_iff

lemmas date_eval =
  getFullYear_def getMonth_def getDate_def getHours_def getMinutes_def getSeconds_def
  LocalTime_def YearFromTime_def YearFromDay_def Day_def DayFromYear_def DaysInYear_def
  InLeapYear_def DayWithinYear_def MonthFromTime_def DateFromTime_def month_of_def date_of_def
  HourFromTime_def MinFromTime_def SecFromTime_def year_search_step year_search_stop Let_def

lemmas timestamp_eval =
  timestampName_def pad_def padStart_def String_def digits_lt10 digits_ge10 digit_char_def
  char_eval date_eval

lemma timestampName_date_a: "timestampName date_a = ''2025-05-17-11-40-24''"
  by (simp add: date_a_def timestamp_eval)

lemma timestampName_date_b: "timestampName date_b = ''2025-05-17-11-40-25''"
  by (simp add: date_b_def timestamp_eval)

lemma timestampName_date_c: "timestampName date_c = ''2025-05-17-11-40-25''"
  by (simp add: date_c_def timestamp_eval)

theorem timestampName_chronological_witness:
  "offsetSeconds date_a = offsetSeconds date_b \<and> offsetSeconds date_b = offsetSeconds date_c \<and>
   getFullYear date_a = 2025 \<and> getFullYear date_b = 2025 \<and> getFullYear date_c = 2025 \<and>
   getTime date_a + 1000 \<le> getTime date_b \<and>
   getTime date_a < getTime date_b \<and> timestampName date_a < timestampName date_b \<and>
   getTime date_b div 1000 = getTime date_c div 1000 \<and>
   timestampName date_b = timestampName date_c"
proof -
  have o: "offsetSeconds date_a = offsetSeconds date_b" "offsetSeconds date_b = offsetSeconds date_c"
    by (simp_all add: date_a_def date_b_def date_c_def)
  have y: "getFullYear date_a = 2025" "getFullYear date_b = 2025" "getFullYear date_c = 2025"
    by (simp_all add: date_a_def date_b_def date_c_def date_eval)
  have t: "getTime date_a + 1000 \<le> getTime date_b" "getTime date_a < getTime date_b"
    "getTime date_b div 1000 = getTime date_c div 1000"
    by (simp_all add: date_a_def date_b_def date_c_def)
  from timestampName_chronological [of date_a date_b] timestampName_chronological [of date_b date_c]
  have "timestampName date_a < timestampName date_b" "timestampName date_b = timestampName date_c"
    using o t by (simp_all add: y)
  with o y t show ?thesis by simp
qed

text \<open>
  C9, as stated, fails on the code in two ways. When daylight saving time ends, the local
  clock is set back: in New York the instant 1762063199 s of the epoch reads 01:59:59 and
  the next second reads 01:00:00, so the later instant gets the smaller string. And the
  year is written without padding: the last second of the year 9999 gets a greater string
  than the first second of the year 10000 (both read in UTC here).
\<close>

theorem timestampName_fall_back_counterexample:
  "getTime date_edt + 1000 \<le> getTime date_est \<and>
   timestampName date_edt = ''2025-11-02-01-59-59'' \<and>
   timestampName date_est = ''2025-11-02-01-00-00'' \<and>
   \<not> timestampName date_edt < timestampName date_est \<and>
   getTime date_y9999 + 1000 \<le> getTime date_y10000 \<and>
   timestampName date_y9999 = ''9999-12-31-23-59-59'' \<and>
   timestampName date_y10000 = ''10000-01-01-00-00-00'' \<and>
   \<not> timestampName date_y9999 < timestampName date_y10000"
proof -
  have a: "timestampName date_edt = ''2025-11-02-01-59-59''"
    by (simp add: date_edt_def timestamp_eval)
  have b: "timestampName date_est = ''2025-11-02-01-00-00''"
    by (simp add: date_est_def timestamp_eval)
  have c: "timestampName date_y9999 = ''9999-12-31-23-59-59''"
    by (simp add: date_y9999_def timestamp_eval)
  have d: "timestampName date_y10000 = ''10000-01-01-00-00-00''"
    by (simp add: date_y10000_def timestamp_eval)
  have "getTime date_edt + 1000 \<le> getTime date_est"
    "getTime date_y9999 + 1000 \<le> getTime date_y10000"
    by (simp_all add: date_edt_def date_est_def date_y9999_def date_y10000_def)
  then show ?thesis
    by (simp add: a b c d)
qed

section \<open>Occurrences in a string\<close>







section \<open>Properties of the context assembler\<close>





























section \<open>Properties of the MCP server\<close>

lemma addImageIfRelevant_shape:
  "fst (addImageIfRelevant s c) = [] \<or>
   (\<exists>d m. fst (addImageIfRelevant s c) = [ImagePart d m ''Relevant image for your query''])"
  by (auto simp add: addImageIfRelevant_def split: option.splits prod.splits)

text \<open>
  C8. Every response of a successful query is a text part, or an image part followed by a
  text part: the text part is last and is there whatever the answer text is (in the
  witness it is the empty string).
\<close>

theorem answerFromContext_response_shape:
  assumes "answerFromContext env s question = (Inr parts, acc)"
  shows "\<exists>ans. parts = [TextPart ans] \<or>
           (\<exists>d m. parts = [ImagePart d m ''Relevant image for your query'', TextPart ans])"
proof -
  from assms obtain q r where r: "askAnthropicWithContext env q (fst (buildFullContext env s)) = Inr r"
    and p: "parts = fst (buildResponse s (answer r) (relevantImageTimestamp r))"
    by (auto simp add: answerFromContext_def split: option.splits json.splits if_splits
        prod.splits sum.splits)
  have "parts = fst (addImageIfRelevant s (relevantImageTimestamp r)) @ [TextPart (answer r)]"
    by (simp add: p buildResponse_def split: prod.splits)
  with addImageIfRelevant_shape [of s "relevantImageTimestamp r"] show ?thesis
    by auto
qed

lemmas mcp_eval =
  answerFromContext_def buildFullContext_def readTextFilesFromDir_def readdir_def readFile_def
  sortTextFiles_def sort_by_def byte_compare_def endsWith_def startsWith_def askAnthropicWithContext_def processResponse_def
  contentBlock_def buildResponse_def addImageIfRelevant_def getCorrespondingImage_def
  basename_def last_segment_def extname_def toLowerCase_def lower_char_def mediaType_of_def
  ci_startsWith_def line_terminator_def trim_def trimStart_def trimEnd_def white_space_def
  b64_char_def b64_alphabet_def contextParts_def transcriptParts_def imageDescriptionParts_def
  timestamp_of_def NL_def char_of_def bit_Suc_0_iff Let_def

lemma ev1: "answerFromContext env_cite fs_w (Some (JString ''Which image?'')) =
    (Inr [ImagePart ''UE5HREFUQQ=='' ''image/png'' ''Relevant image for your query'', TextPart []],
     [Readdir Transcripts, ReadFile Transcripts ''2025-05-17-02-40-20.txt'', Readdir Images,
      ReadFile Images ''2025-05-17-02-40-24.txt'', Readdir Images, ReadFile Images ''2025-05-17-02-40-24.png''])"
  by (simp add: env_cite_def fs_w_def reply_of_def mcp_eval)

theorem answerFromContext_response_shape_witness:
  "answerFromContext env_cite fs_w (Some (JString ''Which image?'')) =
    (Inr [ImagePart ''UE5HREFUQQ=='' ''image/png'' ''Relevant image for your query'', TextPart []],
     [Readdir Transcripts, ReadFile Transcripts ''2025-05-17-02-40-20.txt'', Readdir Images,
      ReadFile Images ''2025-05-17-02-40-24.txt'', Readdir Images, ReadFile Images ''2025-05-17-02-40-24.png'']) \<and>
   (\<exists>ans. [ImagePart ''UE5HREFUQQ=='' ''image/png'' ''Relevant image for your query'', TextPart []] = [TextPart ans] \<or>
      (\<exists>d m. [ImagePart ''UE5HREFUQQ=='' ''image/png'' ''Relevant image for your query'', TextPart []] =
          [ImagePart d m ''Relevant image for your query'', TextPart ans]))"
  using ev1 answerFromContext_response_shape [OF ev1] by simp

lemma processResponse_no_marker:
  "contentBlock body = Some txt \<Longrightarrow> find_marker txt = None \<Longrightarrow>
     processResponse body = \<lparr>answer = trim txt, relevantImageTimestamp = None\<rparr>"
  by (simp add: processResponse_def)

text \<open>
  C7. When the text of the reasoning response has no citation marker (the regular
  expression of the marker does not match), the parsed result has no cited timestamp and
  the response of the query is the single text part holding the trimmed text.
\<close>

theorem no_marker_text_only:
  assumes "ANTHROPIC_KEY env = Some k" "k \<noteq> []" "q \<noteq> []"
    and "fetch env (constructPrompt q (fst (buildFullContext env s))) = Inr resp"
    and "ok resp" "json_body resp = Inr body"
    and "contentBlock body = Some txt" "find_marker txt = None"
  shows "askAnthropicWithContext env q (fst (buildFullContext env s)) =
           Inr \<lparr>answer = trim txt, relevantImageTimestamp = None\<rparr> \<and>
         fst (answerFromContext env s (Some (JString q))) = Inr [TextPart (trim txt)]"
proof -
  have a: "askAnthropicWithContext env q (fst (buildFullContext env s)) =
           Inr \<lparr>answer = trim txt, relevantImageTimestamp = None\<rparr>"
    using assms by (simp add: askAnthropicWithContext_def processResponse_no_marker)
  then show ?thesis
    using assms(3)
    by (simp add: answerFromContext_def buildResponse_def addImageIfRelevant_def
        case_prod_beta Let_def)
qed

theorem no_marker_text_only_witness:
  "find_marker '' Nothing found. '' = None \<and>
   askAnthropicWithContext env_plain ''What?'' (fst (buildFullContext env_plain fs_w)) =
     Inr \<lparr>answer = ''Nothing found.'', relevantImageTimestamp = None\<rparr> \<and>
   fst (answerFromContext env_plain fs_w (Some (JString ''What?''))) =
     Inr [TextPart ''Nothing found.'']"
proof -
  have m: "find_marker '' Nothing found. '' = None"
    by (simp add: ci_startsWith_def startsWith_def toLowerCase_def lower_char_def)
  have t: "trim '' Nothing found. '' = ''Nothing found.''"
    by (simp add: trim_def trimStart_def trimEnd_def white_space_def startsWith_def)
  have "askAnthropicWithContext env_plain ''What?'' (fst (buildFullContext env_plain fs_w)) =
          Inr \<lparr>answer = trim '' Nothing found. '', relevantImageTimestamp = None\<rparr> \<and>
        fst (answerFromContext env_plain fs_w (Some (JString ''What?''))) =
          Inr [TextPart (trim '' Nothing found. '')]"
    by (rule no_marker_text_only [where k = "''k''" and resp = "reply_of '' Nothing found. ''"
          and body = "Some [Block ''text'' (Some '' Nothing found. '')]"])
      (simp_all add: env_plain_def reply_of_def contentBlock_def m)
  then show ?thesis
    by (simp add: m t)
qed


end
